theory Spec2Isabelle
  imports Main
begin

section \<open>USB transfer batches (uspace/lib/usbhost/src/usb\_transfer\_batch.c)\<close>

text \<open>
  The six functions of \<^verbatim>\<open>usb_transfer_batch.c\<close> are embedded as state transformers on an
  explicit store. A C pointer is an address (a natural number, \<open>0\<close> being \<^verbatim>\<open>NULL\<close>);
  endpoints and batches live in two maps from addresses to records, so that aliasing
  (several batches bound to one endpoint) is visible. A failed \<^verbatim>\<open>assert\<close> and a
  dereference of \<^verbatim>\<open>NULL\<close> or of an address that holds no object stop the run with a
  fault; the state reached at that point is kept in the result.
\<close>

subsection \<open>Data\<close>

type_synonym ptr = nat

text \<open>
  Modelled from the spec: \<^verbatim>\<open>errno.h\<close> is not among the sources. The file uses \<^verbatim>\<open>EOK\<close>
  (success, the zero code: a zeroed batch carries it and \<^verbatim>\<open>if (err)\<close> tests against it)
  and \<^verbatim>\<open>EAGAIN\<close> (the outcome \<^verbatim>\<open>usb_transfer_batch_abort\<close> stores, the spec's
  cancellation/timeout error); every other code is \<open>Errno_other n\<close>.
\<close>

datatype errno = EOK | EAGAIN | Errno_other nat

text \<open>
  Modelled from the spec: \<^verbatim>\<open>usb_transfer_batch.h\<close> is not among the sources. The three
  toggle reset modes are the spec's NONE, ENDPOINT and ALL; the file names
  \<^verbatim>\<open>RESET_NONE\<close> and \<^verbatim>\<open>RESET_ALL\<close>.
\<close>

datatype toggle_reset_mode = RESET_NONE | RESET_EP | RESET_ALL

datatype usb_direction = USB_DIRECTION_IN | USB_DIRECTION_OUT | USB_DIRECTION_BOTH

record usb_target =
  address :: nat
  endpoint :: nat

text \<open>
  Modelled from the spec: the fields of \<^verbatim>\<open>usb_transfer_batch_t\<close> the file reads or writes
  (\<open>ep\<close>, \<open>target\<close>, \<open>error\<close>, \<open>transfered_size\<close>, \<open>toggle_reset_mode\<close>,
  \<open>on_complete\<close>, \<open>on_complete_data\<close>), and the direction, buffer and requested size
  of the spec's data model. \<open>on_complete\<close> is a function pointer: the address of a
  callback, \<open>0\<close> when none is registered.
\<close>

record usb_transfer_batch =
  ep :: ptr
  target :: usb_target
  dir :: usb_direction
  buffer :: ptr
  buffer_size :: nat
  transfered_size :: nat
  error :: errno
  toggle_reset_mode :: toggle_reset_mode
  on_complete :: ptr
  on_complete_data :: ptr

text \<open>What \<^verbatim>\<open>calloc(1, sizeof(usb_transfer_batch_t))\<close> hands out: every field zero.\<close>

definition zero_batch :: usb_transfer_batch where
  "zero_batch =
     \<lparr>ep = 0, target = \<lparr>address = 0, endpoint = 0\<rparr>, dir = USB_DIRECTION_IN, buffer = 0,
      buffer_size = 0, transfered_size = 0, error = EOK, toggle_reset_mode = RESET_NONE,
      on_complete = 0, on_complete_data = 0\<rparr>"

text \<open>
  Modelled from the spec: \<^verbatim>\<open>endpoint_t\<close> (\<^verbatim>\<open>endpoint.h\<close> is not among the sources), reduced
  to the owning bus and the reference count.
\<close>

record endpoint_t =
  bus :: ptr
  refcnt :: int

text \<open>
  Every call that leaves the file (libc, endpoint, bus, the completion callback) and
  every log line is recorded, in order, in the trace of the state.
\<close>

datatype event =
    Call_calloc ptr
  | Call_free ptr
  | Call_add_ref ptr
  | Call_del_ref ptr
  | Call_endpoint_teardown ptr
  | Call_batch_create ptr
  | Call_batch_destroy ptr
  | Call_bus_reset_toggle ptr usb_target toggle_reset_mode
  | Call_on_complete ptr ptr errno nat
  | Log_debug2 ptr string
  | Log_warning ptr errno

text \<open>
  \<open>calloc_results\<close> lists what the coming calls of \<^verbatim>\<open>calloc\<close> return, \<open>0\<close> (or an
  exhausted list) being an allocation failure.
\<close>

record world =
  endpoints :: "ptr \<rightharpoonup> endpoint_t"
  batches :: "ptr \<rightharpoonup> usb_transfer_batch"
  calloc_results :: "ptr list"
  trace :: "event list"

datatype fault = Assert_failed | Bad_pointer

datatype 'a result = Returns 'a world | Stops fault world

text \<open>Sequencing: a fault ends the run, a return passes its value and state on.\<close>

definition and_then :: "'a result \<Rightarrow> ('a \<Rightarrow> world \<Rightarrow> 'b result) \<Rightarrow> 'b result" where
  "and_then r k = (case r of Stops f w \<Rightarrow> Stops f w | Returns v w \<Rightarrow> k v w)"

text \<open>
  Modelled from the spec: \<^verbatim>\<open>bus_ops_t\<close> and the macro \<^verbatim>\<open>BUS_OPS_LOOKUP\<close> (\<^verbatim>\<open>bus.h\<close> is not
  among the sources). A bus is a capability set: \<open>batch_create\<close> and \<open>batch_destroy\<close>
  are optional overrides (\<open>None\<close> when the lookup finds no implementation),
  \<open>reset_toggle\<close> is the backend's toggle reset. The implementations are backend code:
  arbitrary state transformers.
\<close>

record bus_ops_t =
  batch_create :: "(ptr \<Rightarrow> world \<Rightarrow> ptr result) option"
  batch_destroy :: "(ptr \<Rightarrow> world \<Rightarrow> unit result) option"
  reset_toggle :: "ptr \<Rightarrow> usb_target \<Rightarrow> toggle_reset_mode \<Rightarrow> world \<Rightarrow> errno result"

text \<open>
  The code behind the pointers: the operations of each bus, and the completion callback
  at each function address, of signature (context, error outcome, transferred bytes) to
  status.
\<close>

record env =
  bus_ops :: "ptr \<rightharpoonup> bus_ops_t"
  callbacks :: "ptr \<rightharpoonup> (ptr \<Rightarrow> errno \<Rightarrow> nat \<Rightarrow> world \<Rightarrow> errno result)"

text \<open>Dereferencing: nothing lives at address \<open>0\<close>.\<close>

definition endpoint_at :: "world \<Rightarrow> ptr \<Rightarrow> endpoint_t option" where
  "endpoint_at st e = (if e = 0 then None else endpoints st e)"

definition batch_at :: "world \<Rightarrow> ptr \<Rightarrow> usb_transfer_batch option" where
  "batch_at st p = (if p = 0 then None else batches st p)"

definition ops_at :: "env \<Rightarrow> ptr \<Rightarrow> bus_ops_t option" where
  "ops_at en b = (if b = 0 then None else bus_ops en b)"

subsection \<open>Collaborators\<close>

definition log_event :: "event \<Rightarrow> world \<Rightarrow> world" where
  "log_event e st = st\<lparr>trace := trace st @ [e]\<rparr>"

text \<open>libc: \<^verbatim>\<open>calloc\<close> returns a zeroed block or \<^verbatim>\<open>NULL\<close>; \<^verbatim>\<open>free\<close> releases the block.\<close>

definition calloc_batch :: "world \<Rightarrow> ptr \<times> world" where
  "calloc_batch st =
     (case calloc_results st of
        [] \<Rightarrow> (0, log_event (Call_calloc 0) st)
      | p # ps \<Rightarrow>
          if p = 0 then (0, log_event (Call_calloc 0) (st\<lparr>calloc_results := ps\<rparr>))
          else (p, log_event (Call_calloc p)
                     (st\<lparr>batches := (batches st)(p \<mapsto> zero_batch), calloc_results := ps\<rparr>)))"

definition free_batch :: "ptr \<Rightarrow> world \<Rightarrow> world" where
  "free_batch p st = log_event (Call_free p) (st\<lparr>batches := (batches st)(p := None)\<rparr>)"

text \<open>
  Modelled from the spec: \<^verbatim>\<open>endpoint_get_bus\<close>, \<^verbatim>\<open>endpoint_add_ref\<close> and
  \<^verbatim>\<open>endpoint_del_ref\<close> (\<^verbatim>\<open>endpoint.c\<close> is not among the sources). \<open>get_bus\<close> returns the
  owning bus and has no side effect; \<open>add_ref\<close> increments the reference count and has
  no failure mode; \<open>del_ref\<close> decrements it and, when it reaches zero, triggers the
  endpoint teardown, which belongs to the backend and is recorded as a call.
\<close>

definition endpoint_get_bus :: "ptr \<Rightarrow> world \<Rightarrow> ptr result" where
  "endpoint_get_bus e st =
     (case endpoint_at st e of
        None \<Rightarrow> Stops Bad_pointer st
      | Some r \<Rightarrow> Returns (bus r) st)"

definition endpoint_add_ref :: "ptr \<Rightarrow> world \<Rightarrow> unit result" where
  "endpoint_add_ref e st =
     (case endpoint_at st e of
        None \<Rightarrow> Stops Bad_pointer st
      | Some r \<Rightarrow>
          Returns () (log_event (Call_add_ref e)
            (st\<lparr>endpoints := (endpoints st)(e \<mapsto> r\<lparr>refcnt := refcnt r + 1\<rparr>)\<rparr>)))"

definition endpoint_del_ref :: "ptr \<Rightarrow> world \<Rightarrow> unit result" where
  "endpoint_del_ref e st =
     (case endpoint_at st e of
        None \<Rightarrow> Stops Bad_pointer st
      | Some r \<Rightarrow>
          (let st1 = log_event (Call_del_ref e)
                 (st\<lparr>endpoints := (endpoints st)(e \<mapsto> r\<lparr>refcnt := refcnt r - 1\<rparr>)\<rparr>)
           in Returns () (if refcnt r - 1 = 0 then log_event (Call_endpoint_teardown e) st1
                          else st1)))"

text \<open>
  Modelled from the spec: \<^verbatim>\<open>bus_reset_toggle\<close> (\<^verbatim>\<open>bus.c\<close> is not among the sources) hands
  the target and the mode to the backend's \<open>reset_toggle\<close>.
\<close>

definition bus_reset_toggle ::
  "env \<Rightarrow> ptr \<Rightarrow> usb_target \<Rightarrow> toggle_reset_mode \<Rightarrow> world \<Rightarrow> errno result" where
  "bus_reset_toggle en b tgt m st =
     (case ops_at en b of
        None \<Rightarrow> Stops Bad_pointer st
      | Some ops \<Rightarrow> reset_toggle ops b tgt m (log_event (Call_bus_reset_toggle b tgt m) st))"

subsection \<open>The functions of the file\<close>

text \<open>
  \<^verbatim>\<open>usb_transfer_batch_init\<close>: \<^verbatim>\<open>assert(ep); endpoint_add_ref(ep); batch->ep = ep;\<close>
\<close>

definition usb_transfer_batch_init :: "ptr \<Rightarrow> ptr \<Rightarrow> world \<Rightarrow> unit result" where
  "usb_transfer_batch_init p e st =
     (if e = 0 then Stops Assert_failed st
      else and_then (endpoint_add_ref e st) (\<lambda>u st1.
        (case batch_at st1 p of
           None \<Rightarrow> Stops Bad_pointer st1
         | Some bt \<Rightarrow> Returns () (st1\<lparr>batches := (batches st1)(p \<mapsto> bt\<lparr>ep := e\<rparr>)\<rparr>))))"

text \<open>
  \<^verbatim>\<open>usb_transfer_batch_create\<close>: without a \<open>batch_create\<close> operation the batch is
  allocated with \<^verbatim>\<open>calloc\<close> and handed to \<^verbatim>\<open>usb_transfer_batch_init\<close>, whatever
  \<^verbatim>\<open>calloc\<close> returned; with one, the call is passed on.
\<close>

definition usb_transfer_batch_create :: "env \<Rightarrow> ptr \<Rightarrow> world \<Rightarrow> ptr result" where
  "usb_transfer_batch_create en e st =
     (if e = 0 then Stops Assert_failed st
      else and_then (endpoint_get_bus e st) (\<lambda>b st1.
        (case ops_at en b of
           None \<Rightarrow> Stops Bad_pointer st1
         | Some ops \<Rightarrow>
             (case batch_create ops of
                None \<Rightarrow>
                  (case calloc_batch st1 of
                     (p, st2) \<Rightarrow>
                       and_then (usb_transfer_batch_init p e st2) (\<lambda>u st3. Returns p st3))
              | Some f \<Rightarrow> f e (log_event (Call_batch_create e) st1)))))"

text \<open>
  \<^verbatim>\<open>usb_transfer_batch_reset_toggle\<close>: returns \<^verbatim>\<open>EOK\<close> at once when
  \<^verbatim>\<open>batch->error != EOK || batch->toggle_reset_mode == RESET_NONE\<close>.
\<close>

definition usb_transfer_batch_reset_toggle :: "env \<Rightarrow> ptr \<Rightarrow> world \<Rightarrow> errno result" where
  "usb_transfer_batch_reset_toggle en p st =
     (if p = 0 then Stops Assert_failed st
      else
        (case batch_at st p of
           None \<Rightarrow> Stops Bad_pointer st
         | Some bt \<Rightarrow>
             (if error bt \<noteq> EOK \<or> toggle_reset_mode bt = RESET_NONE then Returns EOK st
              else and_then
                (endpoint_get_bus (ep bt)
                   (log_event
                      (Log_debug2 p (if toggle_reset_mode bt = RESET_ALL
                                     then ''resets all EPs toggle'' else ''resets EP toggle''))
                      st))
                (\<lambda>b st1. bus_reset_toggle en b (target bt) (toggle_reset_mode bt) st1))))"

text \<open>
  \<^verbatim>\<open>usb_transfer_batch_destroy\<close>: the \<open>batch_destroy\<close> operation is looked up, the
  endpoint reference is dropped, then the operation, or \<^verbatim>\<open>free\<close>, releases the batch.
\<close>

definition usb_transfer_batch_destroy :: "env \<Rightarrow> ptr \<Rightarrow> world \<Rightarrow> unit result" where
  "usb_transfer_batch_destroy en p st =
     (if p = 0 then Stops Assert_failed st
      else
        (case batch_at st p of
           None \<Rightarrow> Stops Bad_pointer st
         | Some bt \<Rightarrow>
             (if ep bt = 0 then Stops Assert_failed st
              else and_then (endpoint_get_bus (ep bt) st) (\<lambda>b st1.
                (case ops_at en b of
                   None \<Rightarrow> Stops Bad_pointer st1
                 | Some ops \<Rightarrow>
                     and_then (endpoint_del_ref (ep bt) st1) (\<lambda>u st2.
                       (case batch_destroy ops of
                          Some f \<Rightarrow>
                            f p (log_event (Call_batch_destroy p)
                                   (log_event (Log_debug2 p ''destroying'') st2))
                        | None \<Rightarrow>
                            Returns ()
                              (free_batch p
                                 (log_event (Log_debug2 p ''disposing'') st2)))))))))"

text \<open>
  \<^verbatim>\<open>usb_transfer_batch_finish\<close>: the callback, when the field is not \<^verbatim>\<open>NULL\<close>, is called
  with \<^verbatim>\<open>(batch->on_complete_data, batch->error, batch->transfered_size)\<close>; a non-zero
  status is logged; \<^verbatim>\<open>usb_transfer_batch_destroy\<close> follows.
\<close>

definition usb_transfer_batch_finish :: "env \<Rightarrow> ptr \<Rightarrow> world \<Rightarrow> unit result" where
  "usb_transfer_batch_finish en p st =
     (if p = 0 then Stops Assert_failed st
      else
        (case batch_at st p of
           None \<Rightarrow> Stops Bad_pointer st
         | Some bt \<Rightarrow>
             (if ep bt = 0 then Stops Assert_failed st
              else if on_complete bt \<noteq> 0 then
                (case callbacks en (on_complete bt) of
                   None \<Rightarrow> Stops Bad_pointer (log_event (Log_debug2 p ''finishing'') st)
                 | Some h \<Rightarrow>
                     and_then
                       (h (on_complete_data bt) (error bt) (transfered_size bt)
                          (log_event
                             (Call_on_complete (on_complete bt) (on_complete_data bt)
                                (error bt) (transfered_size bt))
                             (log_event (Log_debug2 p ''finishing'') st)))
                       (\<lambda>err st1.
                          usb_transfer_batch_destroy en p
                            (if err \<noteq> EOK then log_event (Log_warning p err) st1 else st1)))
              else usb_transfer_batch_destroy en p
                     (log_event (Log_debug2 p ''finishing'') st))))"

text \<open>
  \<^verbatim>\<open>usb_transfer_batch_abort\<close>: \<^verbatim>\<open>batch->error = EAGAIN; usb_transfer_batch_finish(batch);\<close>
\<close>

definition usb_transfer_batch_abort :: "env \<Rightarrow> ptr \<Rightarrow> world \<Rightarrow> unit result" where
  "usb_transfer_batch_abort en p st =
     (if p = 0 then Stops Assert_failed st
      else
        (case batch_at st p of
           None \<Rightarrow> Stops Bad_pointer st
         | Some bt \<Rightarrow>
             (if ep bt = 0 then Stops Assert_failed st
              else usb_transfer_batch_finish en p
                     (st\<lparr>batches := (batches st)(p \<mapsto> bt\<lparr>error := EAGAIN\<rparr>)\<rparr>))))"

subsection \<open>Sequences of creations and completions\<close>

text \<open>
  The reference balance is a property of a usage: \<open>n\<close> calls of
  \<^verbatim>\<open>usb_transfer_batch_create\<close> on one endpoint, then the completion of each batch by
  \<^verbatim>\<open>usb_transfer_batch_finish\<close> or \<^verbatim>\<open>usb_transfer_batch_abort\<close>.
\<close>

fun create_batches :: "env \<Rightarrow> ptr \<Rightarrow> nat \<Rightarrow> world \<Rightarrow> ptr list result" where
  "create_batches en e 0 st = Returns [] st"
| "create_batches en e (Suc n) st =
     and_then (usb_transfer_batch_create en e st) (\<lambda>p st1.
       and_then (create_batches en e n st1) (\<lambda>ps st2. Returns (p # ps) st2))"

datatype completion = Finish | Abort

fun complete_batches :: "env \<Rightarrow> (completion \<times> ptr) list \<Rightarrow> world \<Rightarrow> unit result" where
  "complete_batches en [] st = Returns () st"
| "complete_batches en ((c, p) # cs) st =
     and_then
       (case c of
          Finish \<Rightarrow> usb_transfer_batch_finish en p st
        | Abort \<Rightarrow> usb_transfer_batch_abort en p st)
       (\<lambda>u st1. complete_batches en cs st1)"

text \<open>
  What the usage expects of the code behind the pointers. A completion callback
  returns and leaves the endpoints and the batches alone. A \<open>batch_create\<close> override that
  returns a batch has acquired one reference on the endpoint (by
  \<^verbatim>\<open>usb_transfer_batch_init\<close>); a \<open>batch_destroy\<close> override returns, and touches neither
  the endpoints nor any other batch.
\<close>

definition callbacks_keep_stores :: "env \<Rightarrow> bool" where
  "callbacks_keep_stores en =
     (\<forall>f h ctx err n w. callbacks en f = Some h \<longrightarrow>
        (\<exists>s w'. h ctx err n w = Returns s w'
           \<and> endpoints w' = endpoints w \<and> batches w' = batches w))"

definition acquires_one_reference :: "(ptr \<Rightarrow> world \<Rightarrow> ptr result) \<Rightarrow> bool" where
  "acquires_one_reference f =
     (\<forall>e w p w'. f e w = Returns p w' \<and> p \<noteq> 0 \<longrightarrow>
        (\<exists>r. endpoint_at w e = Some r
           \<and> endpoints w' = (endpoints w)(e \<mapsto> r\<lparr>refcnt := refcnt r + 1\<rparr>)))"

definition releases_memory_only :: "(ptr \<Rightarrow> world \<Rightarrow> unit result) \<Rightarrow> bool" where
  "releases_memory_only g =
     (\<forall>p w. \<exists>w'. g p w = Returns () w'
        \<and> endpoints w' = endpoints w \<and> (\<forall>q. q \<noteq> p \<longrightarrow> batches w' q = batches w q))"

definition backend_contract :: "bus_ops_t \<Rightarrow> bool" where
  "backend_contract ops =
     ((case batch_create ops of None \<Rightarrow> True | Some f \<Rightarrow> acquires_one_reference f)
      \<and> (case batch_destroy ops of None \<Rightarrow> True | Some g \<Rightarrow> releases_memory_only g))"

text \<open>
  A batch that can be completed: a live batch bound to the endpoint, whose callback
  field is \<^verbatim>\<open>NULL\<close> or the address of a callback.
\<close>

definition ready_to_complete :: "env \<Rightarrow> ptr \<Rightarrow> world \<Rightarrow> ptr \<Rightarrow> bool" where
  "ready_to_complete en e st p =
     (case batch_at st p of
        None \<Rightarrow> False
      | Some bt \<Rightarrow> ep bt = e \<and> (on_complete bt = 0 \<or> callbacks en (on_complete bt) \<noteq> None))"

subsection \<open>The operations as the specification words them\<close>

text \<open>
  Three sentences of the specification describe another function than the file has.
  Each is written out here, to be compared with the function of the file.

  Specification: abort always yields outcome = cancelled and transferred size = 0.
\<close>

definition abort_as_specified :: "env \<Rightarrow> ptr \<Rightarrow> world \<Rightarrow> unit result" where
  "abort_as_specified en p st =
     (if p = 0 then Stops Assert_failed st
      else
        (case batch_at st p of
           None \<Rightarrow> Stops Bad_pointer st
         | Some bt \<Rightarrow>
             (if ep bt = 0 then Stops Assert_failed st
              else usb_transfer_batch_finish en p
                     (st\<lparr>batches :=
                          (batches st)(p \<mapsto> bt\<lparr>transfered_size := 0, error := EAGAIN\<rparr>)\<rparr>))))"

text \<open>
  Specification: reset\_toggle is a no-op when the outcome carries no error and the mode
  is NONE; otherwise it delegates to the bus.
\<close>

definition reset_toggle_as_specified :: "env \<Rightarrow> ptr \<Rightarrow> world \<Rightarrow> errno result" where
  "reset_toggle_as_specified en p st =
     (if p = 0 then Stops Assert_failed st
      else
        (case batch_at st p of
           None \<Rightarrow> Stops Bad_pointer st
         | Some bt \<Rightarrow>
             (if error bt = EOK \<and> toggle_reset_mode bt = RESET_NONE then Returns EOK st
              else and_then
                (endpoint_get_bus (ep bt)
                   (log_event
                      (Log_debug2 p (if toggle_reset_mode bt = RESET_ALL
                                     then ''resets all EPs toggle'' else ''resets EP toggle''))
                      st))
                (\<lambda>b st1. bus_reset_toggle en b (target bt) (toggle_reset_mode bt) st1))))"

text \<open>
  Specification: create acquires one reference on the endpoint, then delegates to the
  \<open>batch_create\<close> override if present, else to the generic path, where init only
  records the binding.
\<close>

definition create_as_specified :: "env \<Rightarrow> ptr \<Rightarrow> world \<Rightarrow> ptr result" where
  "create_as_specified en e st =
     (if e = 0 then Stops Assert_failed st
      else and_then (endpoint_add_ref e st) (\<lambda>u st0.
        and_then (endpoint_get_bus e st0) (\<lambda>b st1.
          (case ops_at en b of
             None \<Rightarrow> Stops Bad_pointer st1
           | Some ops \<Rightarrow>
               (case batch_create ops of
                  None \<Rightarrow>
                    (case calloc_batch st1 of
                       (p, st2) \<Rightarrow>
                         (case batch_at st2 p of
                            None \<Rightarrow> Stops Bad_pointer st2
                          | Some bt \<Rightarrow>
                              Returns p (st2\<lparr>batches := (batches st2)(p \<mapsto> bt\<lparr>ep := e\<rparr>)\<rparr>)))
                | Some f \<Rightarrow> f e (log_event (Call_batch_create e) st1))))))"

subsection \<open>Concrete configurations\<close>

text \<open>
  A recording callback returns the given status and leaves the state as it is (its call
  is already in the trace). Bus 2 has no override; bus 3 embeds the batch in storage of
  its own, as a hardware backend does: its \<open>batch_create\<close> allocates, gives up when the
  allocation fails, and otherwise calls \<^verbatim>\<open>usb_transfer_batch_init\<close>; its \<open>batch_destroy\<close>
  frees the storage.
\<close>

definition recording_callback :: "errno \<Rightarrow> ptr \<Rightarrow> errno \<Rightarrow> nat \<Rightarrow> world \<Rightarrow> errno result" where
  "recording_callback s ctx err n w = Returns s w"

definition generic_ops :: bus_ops_t where
  "generic_ops =
     \<lparr>batch_create = None, batch_destroy = None,
      reset_toggle = (\<lambda>b tgt m w. Returns EOK w)\<rparr>"

definition embedded_create :: "ptr \<Rightarrow> world \<Rightarrow> ptr result" where
  "embedded_create e w =
     (case calloc_batch w of
        (p, w1) \<Rightarrow>
          if p = 0 then Returns 0 w1
          else and_then (usb_transfer_batch_init p e w1) (\<lambda>u w2. Returns p w2))"

definition embedded_destroy :: "ptr \<Rightarrow> world \<Rightarrow> unit result" where
  "embedded_destroy p w = Returns () (free_batch p w)"

definition embedding_ops :: bus_ops_t where
  "embedding_ops =
     \<lparr>batch_create = Some embedded_create, batch_destroy = Some embedded_destroy,
      reset_toggle = (\<lambda>b tgt m w. Returns EOK w)\<rparr>"

definition sample_env :: env where
  "sample_env =
     \<lparr>bus_ops = [2 \<mapsto> generic_ops, 3 \<mapsto> embedding_ops],
      callbacks = [7 \<mapsto> recording_callback EOK, 8 \<mapsto> recording_callback (Errno_other 5)]\<rparr>"

text \<open>
  Three batches on endpoint 1: one that failed on the bus after five bytes, one that
  transferred its eight bytes, one that was never executed.
\<close>

definition stalled_batch :: usb_transfer_batch where
  "stalled_batch =
     \<lparr>ep = 1, target = \<lparr>address = 3, endpoint = 1\<rparr>, dir = USB_DIRECTION_IN, buffer = 4,
      buffer_size = 8, transfered_size = 5, error = Errno_other 1,
      toggle_reset_mode = RESET_ALL, on_complete = 8, on_complete_data = 9\<rparr>"

definition done_batch :: usb_transfer_batch where
  "done_batch =
     \<lparr>ep = 1, target = \<lparr>address = 3, endpoint = 1\<rparr>, dir = USB_DIRECTION_OUT, buffer = 4,
      buffer_size = 8, transfered_size = 8, error = EOK,
      toggle_reset_mode = RESET_ALL, on_complete = 7, on_complete_data = 9\<rparr>"

definition queued_batch :: usb_transfer_batch where
  "queued_batch = zero_batch\<lparr>ep := 1, on_complete := 7, on_complete_data := 9\<rparr>"

definition world_of_batch :: "int \<Rightarrow> usb_transfer_batch \<Rightarrow> world" where
  "world_of_batch n bt =
     \<lparr>endpoints = [1 \<mapsto> \<lparr>bus = 2, refcnt = n\<rparr>], batches = [10 \<mapsto> bt],
      calloc_results = [], trace = []\<rparr>"

definition fresh_world :: world where
  "fresh_world =
     \<lparr>endpoints = [1 \<mapsto> \<lparr>bus = 2, refcnt = 1\<rparr>], batches = Map.empty,
      calloc_results = [10, 11, 12], trace = []\<rparr>"

definition embedded_world :: world where
  "embedded_world =
     \<lparr>endpoints = [5 \<mapsto> \<lparr>bus = 3, refcnt = 1\<rparr>], batches = Map.empty,
      calloc_results = [20, 21], trace = []\<rparr>"

section \<open>Properties\<close>

subsection \<open>Auxiliary facts\<close>

lemma and_then_simps:
  "and_then (Returns v w) k = k v w"
  "and_then (Stops f w) k = Stops f w"
  by (simp_all add: and_then_def)

lemma endpoint_at_Some: "endpoint_at st e = Some r \<longleftrightarrow> e \<noteq> 0 \<and> endpoints st e = Some r"
  by (simp add: endpoint_at_def)

lemma batch_at_Some: "batch_at st p = Some bt \<longleftrightarrow> p \<noteq> 0 \<and> batches st p = Some bt"
  by (simp add: batch_at_def)

lemma ops_at_Some: "ops_at en b = Some ops \<longleftrightarrow> b \<noteq> 0 \<and> bus_ops en b = Some ops"
  by (simp add: ops_at_def)

subsection \<open>Completion\<close>

text \<open>
  Claim C1. For a batch with a registered callback, \<^verbatim>\<open>usb_transfer_batch_finish\<close> is: the
  log line, one call of the callback on (context, error outcome, bytes transferred),
  then, once the callback has returned, one run of \<^verbatim>\<open>usb_transfer_batch_destroy\<close>. The
  status of the callback decides one thing only, whether a warning is logged before the
  batch is destroyed. With a recording callback on a bus without \<open>batch_destroy\<close>
  override, the trace gains one callback call, the warning if the status is not
  \<^verbatim>\<open>EOK\<close>, one released reference and one \<^verbatim>\<open>free\<close>.
\<close>

theorem finish_calls_back_once_then_destroys:
  assumes "batch_at st p = Some bt" and "ep bt \<noteq> 0"
    and "on_complete bt \<noteq> 0" and "callbacks en (on_complete bt) = Some h"
  shows "usb_transfer_batch_finish en p st =
           and_then
             (h (on_complete_data bt) (error bt) (transfered_size bt)
                (st\<lparr>trace := trace st @
                     [Log_debug2 p ''finishing'',
                      Call_on_complete (on_complete bt) (on_complete_data bt) (error bt)
                        (transfered_size bt)]\<rparr>))
             (\<lambda>status st1.
                usb_transfer_batch_destroy en p
                  (if status \<noteq> EOK then log_event (Log_warning p status) st1 else st1))
       \<and> (h = recording_callback s \<and> endpoint_at st (ep bt) = Some r
            \<and> ops_at en (bus r) = Some ops \<and> batch_destroy ops = None \<longrightarrow>
          usb_transfer_batch_finish en p st =
            Returns ()
              (st\<lparr>endpoints := (endpoints st)(ep bt \<mapsto> r\<lparr>refcnt := refcnt r - 1\<rparr>),
                  batches := (batches st)(p := None),
                  trace := trace st @
                    [Log_debug2 p ''finishing'',
                     Call_on_complete (on_complete bt) (on_complete_data bt) (error bt)
                       (transfered_size bt)] @
                    (if s \<noteq> EOK then [Log_warning p s] else []) @
                    [Call_del_ref (ep bt)] @
                    (if refcnt r = 1 then [Call_endpoint_teardown (ep bt)] else []) @
                    [Log_debug2 p ''disposing'', Call_free p]\<rparr>))"
proof -
  from assms(1) have f: "p \<noteq> 0" "batches st p = Some bt"
    by (simp_all add: batch_at_Some)
  have run: "usb_transfer_batch_finish en p st =
           and_then
             (h (on_complete_data bt) (error bt) (transfered_size bt)
                (st\<lparr>trace := trace st @
                     [Log_debug2 p ''finishing'',
                      Call_on_complete (on_complete bt) (on_complete_data bt) (error bt)
                        (transfered_size bt)]\<rparr>))
             (\<lambda>status st1.
                usb_transfer_batch_destroy en p
                  (if status \<noteq> EOK then log_event (Log_warning p status) st1 else st1))"
    using f assms(2-4)
    by (simp add: usb_transfer_batch_finish_def batch_at_def log_event_def)
  have rec: "usb_transfer_batch_finish en p st =
            Returns ()
              (st\<lparr>endpoints := (endpoints st)(ep bt \<mapsto> r\<lparr>refcnt := refcnt r - 1\<rparr>),
                  batches := (batches st)(p := None),
                  trace := trace st @
                    [Log_debug2 p ''finishing'',
                     Call_on_complete (on_complete bt) (on_complete_data bt) (error bt)
                       (transfered_size bt)] @
                    (if s \<noteq> EOK then [Log_warning p s] else []) @
                    [Call_del_ref (ep bt)] @
                    (if refcnt r = 1 then [Call_endpoint_teardown (ep bt)] else []) @
                    [Log_debug2 p ''disposing'', Call_free p]\<rparr>)"
    if "h = recording_callback s" and "endpoint_at st (ep bt) = Some r"
      and "ops_at en (bus r) = Some ops" and "batch_destroy ops = None"
  proof -
    from that(2) have "endpoints st (ep bt) = Some r"
      by (simp add: endpoint_at_Some)
    with f assms(2) that(1,3,4) show ?thesis
      unfolding run
      by (simp add: recording_callback_def usb_transfer_batch_destroy_def batch_at_def
          endpoint_at_def endpoint_get_bus_def endpoint_del_ref_def and_then_simps
          log_event_def free_batch_def Let_def)
  qed
  show ?thesis
  proof (intro conjI impI)
    assume "h = recording_callback s \<and> endpoint_at st (ep bt) = Some r
            \<and> ops_at en (bus r) = Some ops \<and> batch_destroy ops = None"
    then have "h = recording_callback s" and "endpoint_at st (ep bt) = Some r"
      and "ops_at en (bus r) = Some ops" and "batch_destroy ops = None"
      by simp_all
    then show "usb_transfer_batch_finish en p st =
            Returns ()
              (st\<lparr>endpoints := (endpoints st)(ep bt \<mapsto> r\<lparr>refcnt := refcnt r - 1\<rparr>),
                  batches := (batches st)(p := None),
                  trace := trace st @
                    [Log_debug2 p ''finishing'',
                     Call_on_complete (on_complete bt) (on_complete_data bt) (error bt)
                       (transfered_size bt)] @
                    (if s \<noteq> EOK then [Log_warning p s] else []) @
                    [Call_del_ref (ep bt)] @
                    (if refcnt r = 1 then [Call_endpoint_teardown (ep bt)] else []) @
                    [Log_debug2 p ''disposing'', Call_free p]\<rparr>)"
      by (rule rec)
  qed (rule run)
qed

text \<open>
  A failed transfer whose callback returns a non-zero status: one callback call, one
  warning, one released reference, the batch freed.
\<close>

theorem finish_calls_back_once_then_destroys_witness:
  "batch_at (world_of_batch 2 stalled_batch) 10 = Some stalled_batch
   \<and> callbacks sample_env (on_complete stalled_batch)
       = Some (recording_callback (Errno_other 5))
   \<and> usb_transfer_batch_finish sample_env 10 (world_of_batch 2 stalled_batch) =
       Returns ()
         \<lparr>endpoints = [1 \<mapsto> \<lparr>bus = 2, refcnt = 1\<rparr>], batches = Map.empty,
          calloc_results = [],
          trace = [Log_debug2 10 ''finishing'', Call_on_complete 8 9 (Errno_other 1) 5,
                   Log_warning 10 (Errno_other 5), Call_del_ref 1,
                   Log_debug2 10 ''disposing'', Call_free 10]\<rparr>"
proof -
  have b: "batch_at (world_of_batch 2 stalled_batch) 10 = Some stalled_batch"
    by (simp add: batch_at_def world_of_batch_def)
  have e: "ep stalled_batch \<noteq> 0" and f: "on_complete stalled_batch \<noteq> 0"
    by (simp_all add: stalled_batch_def)
  have c: "callbacks sample_env (on_complete stalled_batch)
             = Some (recording_callback (Errno_other 5))"
    by (simp add: sample_env_def stalled_batch_def)
  have r: "endpoint_at (world_of_batch 2 stalled_batch) (ep stalled_batch)
             = Some \<lparr>bus = 2, refcnt = 2\<rparr>"
    by (simp add: endpoint_at_def world_of_batch_def stalled_batch_def)
  have o: "ops_at sample_env (bus \<lparr>bus = 2, refcnt = 2\<rparr>) = Some generic_ops"
    by (simp add: ops_at_def sample_env_def)
  have g: "batch_destroy generic_ops = None"
    by (simp add: generic_ops_def)
  note finish_calls_back_once_then_destroys
    [OF b e f c, THEN conjunct2, rule_format, OF conjI [OF refl conjI [OF r conjI [OF o g]]]]
  with b c show ?thesis
    by (simp add: world_of_batch_def stalled_batch_def)
qed

text \<open>
  Claim C9. With a \<^verbatim>\<open>NULL\<close> callback field, \<^verbatim>\<open>usb_transfer_batch_finish\<close> logs and runs
  \<^verbatim>\<open>usb_transfer_batch_destroy\<close>, once, and calls nothing else; on a bus without
  \<open>batch_destroy\<close> override the reference is released and the batch freed.
\<close>

theorem finish_without_callback:
  assumes "batch_at st p = Some bt" and "ep bt \<noteq> 0" and "on_complete bt = 0"
  shows "usb_transfer_batch_finish en p st =
           usb_transfer_batch_destroy en p (st\<lparr>trace := trace st @ [Log_debug2 p ''finishing'']\<rparr>)
       \<and> (endpoint_at st (ep bt) = Some r \<and> ops_at en (bus r) = Some ops
            \<and> batch_destroy ops = None \<longrightarrow>
          usb_transfer_batch_finish en p st =
            Returns ()
              (st\<lparr>endpoints := (endpoints st)(ep bt \<mapsto> r\<lparr>refcnt := refcnt r - 1\<rparr>),
                  batches := (batches st)(p := None),
                  trace := trace st @
                    [Log_debug2 p ''finishing'', Call_del_ref (ep bt)] @
                    (if refcnt r = 1 then [Call_endpoint_teardown (ep bt)] else []) @
                    [Log_debug2 p ''disposing'', Call_free p]\<rparr>))"
proof -
  from assms(1) have "p \<noteq> 0" and "batches st p = Some bt"
    by (simp_all add: batch_at_Some)
  with assms(2,3) show ?thesis
    by (simp add: usb_transfer_batch_finish_def usb_transfer_batch_destroy_def
        batch_at_def endpoint_at_def endpoint_get_bus_def endpoint_del_ref_def
        and_then_simps log_event_def free_batch_def Let_def)
qed

text \<open>A batch as \<^verbatim>\<open>usb_transfer_batch_init\<close> leaves it, finished at once.\<close>

theorem finish_without_callback_witness:
  "batch_at (world_of_batch 2 (zero_batch\<lparr>ep := 1\<rparr>)) 10 = Some (zero_batch\<lparr>ep := 1\<rparr>)
   \<and> on_complete (zero_batch\<lparr>ep := 1\<rparr>) = 0
   \<and> usb_transfer_batch_finish sample_env 10 (world_of_batch 2 (zero_batch\<lparr>ep := 1\<rparr>)) =
       Returns ()
         \<lparr>endpoints = [1 \<mapsto> \<lparr>bus = 2, refcnt = 1\<rparr>], batches = Map.empty,
          calloc_results = [],
          trace = [Log_debug2 10 ''finishing'', Call_del_ref 1,
                   Log_debug2 10 ''disposing'', Call_free 10]\<rparr>"
proof -
  let ?bt = "zero_batch\<lparr>ep := 1\<rparr>"
  have b: "batch_at (world_of_batch 2 ?bt) 10 = Some ?bt"
    by (simp add: batch_at_def world_of_batch_def)
  have e: "ep ?bt \<noteq> 0" and f: "on_complete ?bt = 0"
    by (simp_all add: zero_batch_def)
  have r: "endpoint_at (world_of_batch 2 ?bt) (ep ?bt) = Some \<lparr>bus = 2, refcnt = 2\<rparr>"
    by (simp add: endpoint_at_def world_of_batch_def)
  have o: "ops_at sample_env (bus \<lparr>bus = 2, refcnt = 2\<rparr>) = Some generic_ops"
    by (simp add: ops_at_def sample_env_def)
  have g: "batch_destroy generic_ops = None"
    by (simp add: generic_ops_def)
  note finish_without_callback
    [OF b e f, THEN conjunct2, rule_format, OF conjI [OF r conjI [OF o g]]]
  with b f show ?thesis by (simp add: world_of_batch_def)
qed

text \<open>
  Claim C8. \<^verbatim>\<open>usb_transfer_batch_destroy\<close> makes one call of \<^verbatim>\<open>endpoint_del_ref\<close> on the
  endpoint of the batch (the count goes down by one), and then releases the memory: by
  the \<open>batch_destroy\<close> override when the bus has one, by \<^verbatim>\<open>free\<close> otherwise.
\<close>

theorem destroy_drops_one_reference:
  assumes "batch_at st p = Some bt" and "endpoint_at st (ep bt) = Some r"
    and "ops_at en (bus r) = Some ops"
  shows "usb_transfer_batch_destroy en p st =
           (case batch_destroy ops of
              Some g \<Rightarrow>
                g p (st\<lparr>endpoints := (endpoints st)(ep bt \<mapsto> r\<lparr>refcnt := refcnt r - 1\<rparr>),
                        trace := trace st @
                          Call_del_ref (ep bt) #
                          (if refcnt r = 1 then [Call_endpoint_teardown (ep bt)] else []) @
                          [Log_debug2 p ''destroying'', Call_batch_destroy p]\<rparr>)
            | None \<Rightarrow>
                Returns ()
                  (st\<lparr>endpoints := (endpoints st)(ep bt \<mapsto> r\<lparr>refcnt := refcnt r - 1\<rparr>),
                      batches := (batches st)(p := None),
                      trace := trace st @
                        Call_del_ref (ep bt) #
                        (if refcnt r = 1 then [Call_endpoint_teardown (ep bt)] else []) @
                        [Log_debug2 p ''disposing'', Call_free p]\<rparr>))"
proof -
  from assms(1,2) have "p \<noteq> 0" and "batches st p = Some bt"
    and "ep bt \<noteq> 0" and "endpoints st (ep bt) = Some r"
    by (simp_all add: batch_at_Some endpoint_at_Some)
  with assms(3) show ?thesis
    by (simp add: usb_transfer_batch_destroy_def batch_at_def endpoint_at_def
        endpoint_get_bus_def endpoint_del_ref_def and_then_simps
        log_event_def free_batch_def Let_def split: option.splits)
qed

text \<open>The last reference of an endpoint: the count reaches zero, the teardown is triggered.\<close>

theorem destroy_drops_one_reference_witness:
  "batch_at (world_of_batch 1 done_batch) 10 = Some done_batch
   \<and> endpoint_at (world_of_batch 1 done_batch) (ep done_batch) = Some \<lparr>bus = 2, refcnt = 1\<rparr>
   \<and> ops_at sample_env 2 = Some generic_ops
   \<and> usb_transfer_batch_destroy sample_env 10 (world_of_batch 1 done_batch) =
       Returns ()
         \<lparr>endpoints = [1 \<mapsto> \<lparr>bus = 2, refcnt = 0\<rparr>], batches = Map.empty,
          calloc_results = [],
          trace = [Call_del_ref 1, Call_endpoint_teardown 1,
                   Log_debug2 10 ''disposing'', Call_free 10]\<rparr>"
proof -
  have b: "batch_at (world_of_batch 1 done_batch) 10 = Some done_batch"
    by (simp add: batch_at_def world_of_batch_def)
  have e: "endpoint_at (world_of_batch 1 done_batch) (ep done_batch)
             = Some \<lparr>bus = 2, refcnt = 1\<rparr>"
    by (simp add: endpoint_at_def world_of_batch_def done_batch_def)
  have "ops_at sample_env 2 = Some generic_ops"
    by (simp add: ops_at_def sample_env_def)
  then have o: "ops_at sample_env (bus \<lparr>bus = 2, refcnt = 1\<rparr>) = Some generic_ops"
    by simp
  from destroy_drops_one_reference [OF b e o] b e o show ?thesis
    by (simp add: generic_ops_def world_of_batch_def done_batch_def)
qed

subsection \<open>Abort\<close>

text \<open>
  Claim C10. \<^verbatim>\<open>usb_transfer_batch_abort\<close> is \<^verbatim>\<open>usb_transfer_batch_finish\<close> on the state in
  which the error field of the batch, and nothing else, has been set to \<^verbatim>\<open>EAGAIN\<close>.
\<close>

theorem abort_only_sets_error:
  assumes "batch_at st p = Some bt" and "ep bt \<noteq> 0"
  shows "usb_transfer_batch_abort en p st =
           usb_transfer_batch_finish en p
             (st\<lparr>batches := (batches st)(p \<mapsto> bt\<lparr>error := EAGAIN\<rparr>)\<rparr>)
       \<and> bt\<lparr>error := EAGAIN\<rparr> =
           \<lparr>ep = ep bt, target = target bt, dir = dir bt, buffer = buffer bt,
            buffer_size = buffer_size bt, transfered_size = transfered_size bt,
            error = EAGAIN, toggle_reset_mode = toggle_reset_mode bt,
            on_complete = on_complete bt, on_complete_data = on_complete_data bt\<rparr>"
proof -
  from assms(1) have "p \<noteq> 0" and "batches st p = Some bt"
    by (simp_all add: batch_at_Some)
  with assms(2) show ?thesis
    by (simp add: usb_transfer_batch_abort_def batch_at_def)
qed

text \<open>Aborting a batch that had transferred its eight bytes: the eight stay.\<close>

theorem abort_only_sets_error_witness:
  "batch_at (world_of_batch 2 done_batch) 10 = Some done_batch
   \<and> usb_transfer_batch_abort sample_env 10 (world_of_batch 2 done_batch) =
       usb_transfer_batch_finish sample_env 10
         (world_of_batch 2
            \<lparr>ep = 1, target = \<lparr>address = 3, endpoint = 1\<rparr>, dir = USB_DIRECTION_OUT,
             buffer = 4, buffer_size = 8, transfered_size = 8, error = EAGAIN,
             toggle_reset_mode = RESET_ALL, on_complete = 7, on_complete_data = 9\<rparr>)"
proof -
  have b: "batch_at (world_of_batch 2 done_batch) 10 = Some done_batch"
    by (simp add: batch_at_def world_of_batch_def)
  have e: "ep done_batch \<noteq> 0"
    by (simp add: done_batch_def)
  from abort_only_sets_error [OF b e, of sample_env] b show ?thesis
    by (simp add: world_of_batch_def done_batch_def)
qed

text \<open>
  Claim C3, as the specification has it, fails: \<^verbatim>\<open>usb_transfer_batch_abort\<close> does not
  touch \<open>transfered_size\<close>. A batch that failed after five bytes is aborted: the callback
  is told \<^verbatim>\<open>EAGAIN\<close> and five bytes, where the specification promises zero.
\<close>

theorem abort_size_counterexample:
  "transfered_size stalled_batch = 5
   \<and> usb_transfer_batch_abort sample_env 10 (world_of_batch 2 stalled_batch) =
       Returns ()
         \<lparr>endpoints = [1 \<mapsto> \<lparr>bus = 2, refcnt = 1\<rparr>], batches = Map.empty,
          calloc_results = [],
          trace = [Log_debug2 10 ''finishing'', Call_on_complete 8 9 EAGAIN 5,
                   Log_warning 10 (Errno_other 5), Call_del_ref 1,
                   Log_debug2 10 ''disposing'', Call_free 10]\<rparr>
   \<and> abort_as_specified sample_env 10 (world_of_batch 2 stalled_batch) =
       Returns ()
         \<lparr>endpoints = [1 \<mapsto> \<lparr>bus = 2, refcnt = 1\<rparr>], batches = Map.empty,
          calloc_results = [],
          trace = [Log_debug2 10 ''finishing'', Call_on_complete 8 9 EAGAIN 0,
                   Log_warning 10 (Errno_other 5), Call_del_ref 1,
                   Log_debug2 10 ''disposing'', Call_free 10]\<rparr>
   \<and> usb_transfer_batch_abort sample_env 10 (world_of_batch 2 stalled_batch)
       \<noteq> abort_as_specified sample_env 10 (world_of_batch 2 stalled_batch)"
  by (simp add: usb_transfer_batch_abort_def abort_as_specified_def
      usb_transfer_batch_finish_def usb_transfer_batch_destroy_def
      world_of_batch_def sample_env_def stalled_batch_def generic_ops_def
      recording_callback_def endpoint_get_bus_def endpoint_del_ref_def
      endpoint_at_def batch_at_def ops_at_def
      and_then_simps log_event_def free_batch_def Let_def)

text \<open>
  Claim C3, amended. Whatever the batch held before, \<^verbatim>\<open>usb_transfer_batch_abort\<close> sets
  the outcome to \<^verbatim>\<open>EAGAIN\<close> and finishes the batch: the callback is called with the
  context, \<^verbatim>\<open>EAGAIN\<close> and the transferred size the batch holds at that moment, which
  is zero for a batch that never executed.
\<close>

theorem abort_reports_stored_size:
  assumes "batch_at st p = Some bt" and "ep bt \<noteq> 0"
    and "on_complete bt \<noteq> 0" and "callbacks en (on_complete bt) = Some h"
  shows "usb_transfer_batch_abort en p st =
           and_then
             (h (on_complete_data bt) EAGAIN (transfered_size bt)
                (st\<lparr>batches := (batches st)(p \<mapsto> bt\<lparr>error := EAGAIN\<rparr>),
                    trace := trace st @
                      [Log_debug2 p ''finishing'',
                       Call_on_complete (on_complete bt) (on_complete_data bt) EAGAIN
                         (transfered_size bt)]\<rparr>))
             (\<lambda>status st1.
                usb_transfer_batch_destroy en p
                  (if status \<noteq> EOK then log_event (Log_warning p status) st1 else st1))"
proof -
  from assms(1) have "p \<noteq> 0" and "batches st p = Some bt"
    by (simp_all add: batch_at_Some)
  with assms(2-4) show ?thesis
    by (simp add: usb_transfer_batch_abort_def usb_transfer_batch_finish_def
        batch_at_def log_event_def)
qed

text \<open>
  A batch that was queued and never executed (reference count 2): the callback receives
  \<^verbatim>\<open>EAGAIN\<close> and zero bytes, the count returns to 1, the batch is freed.
\<close>

theorem abort_reports_stored_size_witness:
  "batch_at (world_of_batch 2 queued_batch) 10 = Some queued_batch
   \<and> callbacks sample_env (on_complete queued_batch) = Some (recording_callback EOK)
   \<and> transfered_size queued_batch = 0
   \<and> usb_transfer_batch_abort sample_env 10 (world_of_batch 2 queued_batch) =
       Returns ()
         \<lparr>endpoints = [1 \<mapsto> \<lparr>bus = 2, refcnt = 1\<rparr>], batches = Map.empty,
          calloc_results = [],
          trace = [Log_debug2 10 ''finishing'', Call_on_complete 7 9 EAGAIN 0,
                   Call_del_ref 1, Log_debug2 10 ''disposing'', Call_free 10]\<rparr>"
proof -
  have b: "batch_at (world_of_batch 2 queued_batch) 10 = Some queued_batch"
    by (simp add: batch_at_def world_of_batch_def)
  have e: "ep queued_batch \<noteq> 0" and f: "on_complete queued_batch \<noteq> 0"
    and z: "transfered_size queued_batch = 0"
    by (simp_all add: queued_batch_def zero_batch_def)
  have c: "callbacks sample_env (on_complete queued_batch) = Some (recording_callback EOK)"
    by (simp add: sample_env_def queued_batch_def)
  have "usb_transfer_batch_abort sample_env 10 (world_of_batch 2 queued_batch) =
       Returns ()
         \<lparr>endpoints = [1 \<mapsto> \<lparr>bus = 2, refcnt = 1\<rparr>], batches = Map.empty,
          calloc_results = [],
          trace = [Log_debug2 10 ''finishing'', Call_on_complete 7 9 EAGAIN 0,
                   Call_del_ref 1, Log_debug2 10 ''disposing'', Call_free 10]\<rparr>"
    unfolding abort_reports_stored_size [OF b e f c]
    by (simp add: usb_transfer_batch_destroy_def world_of_batch_def sample_env_def
        queued_batch_def zero_batch_def generic_ops_def recording_callback_def
        endpoint_get_bus_def endpoint_del_ref_def endpoint_at_def batch_at_def ops_at_def
        and_then_simps log_event_def free_batch_def Let_def)
  with b c z show ?thesis by simp
qed

subsection \<open>Toggle reset\<close>

text \<open>
  Claim C4, as the specification has it, fails: a batch whose outcome carries an error
  never reaches the bus, whatever its mode. Here the mode is \<^verbatim>\<open>RESET_ALL\<close> and the
  transfer failed: the function returns \<^verbatim>\<open>EOK\<close> and the state is untouched.
\<close>

theorem reset_toggle_counterexample:
  "error stalled_batch \<noteq> EOK \<and> toggle_reset_mode stalled_batch = RESET_ALL
   \<and> usb_transfer_batch_reset_toggle sample_env 10 (world_of_batch 2 stalled_batch)
       = Returns EOK (world_of_batch 2 stalled_batch)
   \<and> reset_toggle_as_specified sample_env 10 (world_of_batch 2 stalled_batch) =
       Returns EOK
         ((world_of_batch 2 stalled_batch)\<lparr>trace :=
            [Log_debug2 10 ''resets all EPs toggle'',
             Call_bus_reset_toggle 2 \<lparr>address = 3, endpoint = 1\<rparr> RESET_ALL]\<rparr>)
   \<and> usb_transfer_batch_reset_toggle sample_env 10 (world_of_batch 2 stalled_batch)
       \<noteq> reset_toggle_as_specified sample_env 10 (world_of_batch 2 stalled_batch)"
  by (simp add: usb_transfer_batch_reset_toggle_def reset_toggle_as_specified_def
      bus_reset_toggle_def world_of_batch_def sample_env_def stalled_batch_def
      generic_ops_def endpoint_get_bus_def endpoint_at_def batch_at_def ops_at_def
      and_then_simps log_event_def)

text \<open>
  Claim C4, amended. \<^verbatim>\<open>usb_transfer_batch_reset_toggle\<close> returns \<^verbatim>\<open>EOK\<close> and does
  nothing when the outcome carries an error or the mode is \<^verbatim>\<open>RESET_NONE\<close>. Only for a
  successful batch whose mode is not \<^verbatim>\<open>RESET_NONE\<close> does it call the bus's toggle reset,
  with the target of the batch and its mode.
\<close>

theorem reset_toggle_only_after_success:
  assumes "batch_at st p = Some bt"
  shows "(error bt \<noteq> EOK \<or> toggle_reset_mode bt = RESET_NONE \<longrightarrow>
            usb_transfer_batch_reset_toggle en p st = Returns EOK st)
       \<and> (error bt = EOK \<and> toggle_reset_mode bt \<noteq> RESET_NONE
            \<and> endpoint_at st (ep bt) = Some r \<and> ops_at en (bus r) = Some ops \<longrightarrow>
            usb_transfer_batch_reset_toggle en p st =
              reset_toggle ops (bus r) (target bt) (toggle_reset_mode bt)
                (st\<lparr>trace := trace st @
                     [Log_debug2 p (if toggle_reset_mode bt = RESET_ALL
                                    then ''resets all EPs toggle'' else ''resets EP toggle''),
                      Call_bus_reset_toggle (bus r) (target bt) (toggle_reset_mode bt)]\<rparr>))"
proof -
  from assms have "p \<noteq> 0" and "batches st p = Some bt"
    by (simp_all add: batch_at_Some)
  then show ?thesis
    by (auto simp: usb_transfer_batch_reset_toggle_def bus_reset_toggle_def
        endpoint_get_bus_def endpoint_at_def batch_at_def and_then_simps log_event_def)
qed

text \<open>The failed batch is left alone; the successful one resets all toggles of device 3.\<close>

theorem reset_toggle_only_after_success_witness:
  "batch_at (world_of_batch 2 stalled_batch) 10 = Some stalled_batch
   \<and> error stalled_batch \<noteq> EOK
   \<and> usb_transfer_batch_reset_toggle sample_env 10 (world_of_batch 2 stalled_batch)
       = Returns EOK (world_of_batch 2 stalled_batch)
   \<and> batch_at (world_of_batch 2 done_batch) 10 = Some done_batch
   \<and> error done_batch = EOK \<and> toggle_reset_mode done_batch = RESET_ALL
   \<and> usb_transfer_batch_reset_toggle sample_env 10 (world_of_batch 2 done_batch) =
       Returns EOK
         ((world_of_batch 2 done_batch)\<lparr>trace :=
            [Log_debug2 10 ''resets all EPs toggle'',
             Call_bus_reset_toggle 2 \<lparr>address = 3, endpoint = 1\<rparr> RESET_ALL]\<rparr>)"
proof -
  have b1: "batch_at (world_of_batch 2 stalled_batch) 10 = Some stalled_batch"
    and b2: "batch_at (world_of_batch 2 done_batch) 10 = Some done_batch"
    by (simp_all add: batch_at_def world_of_batch_def)
  have s: "error stalled_batch \<noteq> EOK"
    by (simp add: stalled_batch_def)
  have d: "error done_batch = EOK" "toggle_reset_mode done_batch = RESET_ALL"
    by (simp_all add: done_batch_def)
  have e: "endpoint_at (world_of_batch 2 done_batch) (ep done_batch)
             = Some \<lparr>bus = 2, refcnt = 2\<rparr>"
    by (simp add: endpoint_at_def world_of_batch_def done_batch_def)
  have o: "ops_at sample_env (bus \<lparr>bus = 2, refcnt = 2\<rparr>) = Some generic_ops"
    by (simp add: ops_at_def sample_env_def)
  have "usb_transfer_batch_reset_toggle sample_env 10 (world_of_batch 2 stalled_batch)
          = Returns EOK (world_of_batch 2 stalled_batch)"
    using reset_toggle_only_after_success [OF b1, THEN conjunct1] s by simp
  moreover have "usb_transfer_batch_reset_toggle sample_env 10 (world_of_batch 2 done_batch) =
       Returns EOK
         ((world_of_batch 2 done_batch)\<lparr>trace :=
            [Log_debug2 10 ''resets all EPs toggle'',
             Call_bus_reset_toggle 2 \<lparr>address = 3, endpoint = 1\<rparr> RESET_ALL]\<rparr>)"
    using reset_toggle_only_after_success
      [OF b2, THEN conjunct2, of "\<lparr>bus = 2, refcnt = 2\<rparr>" sample_env generic_ops] d e o
    by (simp add: generic_ops_def world_of_batch_def done_batch_def)
  ultimately show ?thesis using b1 b2 s d by simp
qed

subsection \<open>Creation\<close>


text \<open>
  The generic path does not look at what \<^verbatim>\<open>calloc\<close> returned: after a failed allocation
  the reference is taken and the run stops at the write through \<^verbatim>\<open>NULL\<close>.
\<close>

lemma create_generic_allocation_failure:
  assumes "endpoint_at st e = Some r" and "ops_at en (bus r) = Some ops"
    and "batch_create ops = None"
    and "calloc_results st = [] \<or> hd (calloc_results st) = 0"
  shows "usb_transfer_batch_create en e st =
           Stops Bad_pointer
             (st\<lparr>endpoints := (endpoints st)(e \<mapsto> r\<lparr>refcnt := refcnt r + 1\<rparr>),
                 calloc_results := tl (calloc_results st),
                 trace := trace st @ [Call_calloc 0, Call_add_ref e]\<rparr>)"
proof -
  from assms(1) have "e \<noteq> 0" and "endpoints st e = Some r"
    by (simp_all add: endpoint_at_Some)
  with assms(2-4) show ?thesis
    by (cases "calloc_results st")
       (simp_all add: usb_transfer_batch_create_def usb_transfer_batch_init_def
        endpoint_get_bus_def endpoint_add_ref_def endpoint_at_def batch_at_def
        calloc_batch_def and_then_simps log_event_def)
qed

text \<open>
  Claim C7. On a bus without \<open>batch_create\<close> override, when \<^verbatim>\<open>calloc\<close> returns a block,
  \<^verbatim>\<open>usb_transfer_batch_create\<close> returns it zeroed except for the endpoint field, which
  is the endpoint given, and the reference count of that endpoint is one higher.
\<close>

theorem create_generic_binds_and_references:
  assumes "endpoint_at st e = Some r" and "ops_at en (bus r) = Some ops"
    and "batch_create ops = None" and "calloc_results st = p # ps" and "p \<noteq> 0"
  shows "usb_transfer_batch_create en e st =
           Returns p
             (st\<lparr>endpoints := (endpoints st)(e \<mapsto> r\<lparr>refcnt := refcnt r + 1\<rparr>),
                 batches := (batches st)(p \<mapsto> zero_batch\<lparr>ep := e\<rparr>),
                 calloc_results := ps,
                 trace := trace st @ [Call_calloc p, Call_add_ref e]\<rparr>)"
proof -
  from assms(1) have "e \<noteq> 0" and "endpoints st e = Some r"
    by (simp_all add: endpoint_at_Some)
  with assms(2-5) show ?thesis
    by (simp add: usb_transfer_batch_create_def usb_transfer_batch_init_def
        endpoint_get_bus_def endpoint_add_ref_def endpoint_at_def batch_at_def
        calloc_batch_def and_then_simps log_event_def)
qed

text \<open>First creation on a fresh endpoint: the count goes from 1 to 2.\<close>

theorem create_generic_binds_and_references_witness:
  "endpoint_at fresh_world 1 = Some \<lparr>bus = 2, refcnt = 1\<rparr>
   \<and> ops_at sample_env 2 = Some generic_ops
   \<and> batch_create generic_ops = None
   \<and> calloc_results fresh_world = [10, 11, 12]
   \<and> usb_transfer_batch_create sample_env 1 fresh_world =
       Returns 10
         \<lparr>endpoints = [1 \<mapsto> \<lparr>bus = 2, refcnt = 2\<rparr>],
          batches = [10 \<mapsto> zero_batch\<lparr>ep := 1\<rparr>],
          calloc_results = [11, 12], trace = [Call_calloc 10, Call_add_ref 1]\<rparr>"
proof -
  have e: "endpoint_at fresh_world 1 = Some \<lparr>bus = 2, refcnt = 1\<rparr>"
    by (simp add: endpoint_at_def fresh_world_def)
  have o: "ops_at sample_env 2 = Some generic_ops"
    by (simp add: ops_at_def sample_env_def)
  then have o': "ops_at sample_env (bus \<lparr>bus = 2, refcnt = 1\<rparr>) = Some generic_ops"
    by simp
  have g: "batch_create generic_ops = None"
    by (simp add: generic_ops_def)
  have c: "calloc_results fresh_world = [10, 11, 12]"
    by (simp add: fresh_world_def)
  from create_generic_binds_and_references [OF e o' g c] e o g c show ?thesis
    by (simp add: fresh_world_def)
qed

text \<open>
  Claim C5. When \<^verbatim>\<open>calloc\<close> fails, \<^verbatim>\<open>usb_transfer_batch_create\<close> hands \<^verbatim>\<open>NULL\<close> to
  \<^verbatim>\<open>usb_transfer_batch_init\<close>: the reference is acquired, then the write of
  \<^verbatim>\<open>batch->ep\<close> goes through the null pointer. The run stops there, with the count
  raised from 1 to 2.
\<close>

theorem create_allocation_failure:
  "usb_transfer_batch_create sample_env 1 (fresh_world\<lparr>calloc_results := []\<rparr>) =
     Stops Bad_pointer
       \<lparr>endpoints = [1 \<mapsto> \<lparr>bus = 2, refcnt = 2\<rparr>], batches = Map.empty,
        calloc_results = [], trace = [Call_calloc 0, Call_add_ref 1]\<rparr>"
proof -
  let ?w = "fresh_world\<lparr>calloc_results := []\<rparr>"
  have e: "endpoint_at ?w 1 = Some \<lparr>bus = 2, refcnt = 1\<rparr>"
    by (simp add: endpoint_at_def fresh_world_def)
  have o: "ops_at sample_env (bus \<lparr>bus = 2, refcnt = 1\<rparr>) = Some generic_ops"
    by (simp add: ops_at_def sample_env_def)
  have g: "batch_create generic_ops = None"
    by (simp add: generic_ops_def)
  have c: "calloc_results ?w = [] \<or> hd (calloc_results ?w) = 0"
    by simp
  show ?thesis
    unfolding create_generic_allocation_failure [OF e o g c]
    by (simp add: fresh_world_def)
qed

text \<open>
  Claim C6, as the specification has it, fails: \<^verbatim>\<open>usb_transfer_batch_create\<close> never
  calls \<^verbatim>\<open>endpoint_add_ref\<close> itself. In this configuration the override of bus 3 happens to
  call \<^verbatim>\<open>usb_transfer_batch_init\<close>, which acquires one reference after the delegation; a
  create that acquired one first would leave the count at 3.
\<close>

theorem create_override_counterexample:
  "usb_transfer_batch_create sample_env 5 embedded_world =
     Returns 20
       \<lparr>endpoints = [5 \<mapsto> \<lparr>bus = 3, refcnt = 2\<rparr>],
        batches = [20 \<mapsto> zero_batch\<lparr>ep := 5\<rparr>], calloc_results = [21],
        trace = [Call_batch_create 5, Call_calloc 20, Call_add_ref 5]\<rparr>
   \<and> create_as_specified sample_env 5 embedded_world =
       Returns 20
         \<lparr>endpoints = [5 \<mapsto> \<lparr>bus = 3, refcnt = 3\<rparr>],
          batches = [20 \<mapsto> zero_batch\<lparr>ep := 5\<rparr>], calloc_results = [21],
          trace = [Call_add_ref 5, Call_batch_create 5, Call_calloc 20, Call_add_ref 5]\<rparr>
   \<and> usb_transfer_batch_create sample_env 5 embedded_world
       \<noteq> create_as_specified sample_env 5 embedded_world"
  by (simp add: usb_transfer_batch_create_def create_as_specified_def
      usb_transfer_batch_init_def embedded_world_def sample_env_def embedding_ops_def
      embedded_create_def calloc_batch_def
      endpoint_get_bus_def endpoint_add_ref_def endpoint_at_def batch_at_def ops_at_def
      and_then_simps log_event_def)

text \<open>
  Claim C6, amended. \<^verbatim>\<open>usb_transfer_batch_create\<close> passes the endpoint to the
  \<open>batch_create\<close> override when the bus has one, with nothing acquired beforehand, and
  otherwise allocates and calls \<^verbatim>\<open>usb_transfer_batch_init\<close>; it is
  \<^verbatim>\<open>usb_transfer_batch_init\<close> that acquires the one reference, and then records the
  endpoint in the batch.
\<close>

theorem create_leaves_add_ref_to_init:
  assumes "endpoint_at st e = Some r" and "ops_at en (bus r) = Some ops"
  shows "usb_transfer_batch_create en e st =
           (case batch_create ops of
              Some f \<Rightarrow> f e (st\<lparr>trace := trace st @ [Call_batch_create e]\<rparr>)
            | None \<Rightarrow>
                (case calloc_batch st of
                   (p, st1) \<Rightarrow>
                     and_then (usb_transfer_batch_init p e st1) (\<lambda>u st2. Returns p st2)))
       \<and> usb_transfer_batch_init q e st =
           (case batch_at st q of
              None \<Rightarrow>
                Stops Bad_pointer
                  (st\<lparr>endpoints := (endpoints st)(e \<mapsto> r\<lparr>refcnt := refcnt r + 1\<rparr>),
                      trace := trace st @ [Call_add_ref e]\<rparr>)
            | Some bt \<Rightarrow>
                Returns ()
                  (st\<lparr>endpoints := (endpoints st)(e \<mapsto> r\<lparr>refcnt := refcnt r + 1\<rparr>),
                      batches := (batches st)(q \<mapsto> bt\<lparr>ep := e\<rparr>),
                      trace := trace st @ [Call_add_ref e]\<rparr>))"
proof -
  from assms(1) have "e \<noteq> 0" and "endpoints st e = Some r"
    by (simp_all add: endpoint_at_Some)
  with assms(2) show ?thesis
    by (simp add: usb_transfer_batch_create_def usb_transfer_batch_init_def
        endpoint_get_bus_def endpoint_add_ref_def endpoint_at_def batch_at_def
        and_then_simps log_event_def split: option.splits)
qed

text \<open>
  An override that gives up before \<^verbatim>\<open>usb_transfer_batch_init\<close> leaves the count as it
  was; \<^verbatim>\<open>usb_transfer_batch_init\<close> on a zeroed batch raises it by one.
\<close>

theorem create_leaves_add_ref_to_init_witness:
  "endpoint_at (embedded_world\<lparr>calloc_results := []\<rparr>) 5 = Some \<lparr>bus = 3, refcnt = 1\<rparr>
   \<and> ops_at sample_env 3 = Some embedding_ops
   \<and> usb_transfer_batch_create sample_env 5 (embedded_world\<lparr>calloc_results := []\<rparr>) =
       Returns 0
         \<lparr>endpoints = [5 \<mapsto> \<lparr>bus = 3, refcnt = 1\<rparr>], batches = Map.empty,
          calloc_results = [], trace = [Call_batch_create 5, Call_calloc 0]\<rparr>
   \<and> usb_transfer_batch_init 10 1 (world_of_batch 1 zero_batch) =
       Returns ()
         \<lparr>endpoints = [1 \<mapsto> \<lparr>bus = 2, refcnt = 2\<rparr>],
          batches = [10 \<mapsto> zero_batch\<lparr>ep := 1\<rparr>],
          calloc_results = [], trace = [Call_add_ref 1]\<rparr>"
proof -
  let ?w = "embedded_world\<lparr>calloc_results := []\<rparr>"
  have e: "endpoint_at ?w 5 = Some \<lparr>bus = 3, refcnt = 1\<rparr>"
    by (simp add: endpoint_at_def embedded_world_def)
  have o: "ops_at sample_env 3 = Some embedding_ops"
    by (simp add: ops_at_def sample_env_def)
  then have o': "ops_at sample_env (bus \<lparr>bus = 3, refcnt = 1\<rparr>) = Some embedding_ops"
    by simp
  have e2: "endpoint_at (world_of_batch 1 zero_batch) 1 = Some \<lparr>bus = 2, refcnt = 1\<rparr>"
    by (simp add: endpoint_at_def world_of_batch_def)
  have o2: "ops_at sample_env (bus \<lparr>bus = 2, refcnt = 1\<rparr>) = Some generic_ops"
    by (simp add: ops_at_def sample_env_def)
  have "usb_transfer_batch_create sample_env 5 ?w =
       Returns 0
         \<lparr>endpoints = [5 \<mapsto> \<lparr>bus = 3, refcnt = 1\<rparr>], batches = Map.empty,
          calloc_results = [], trace = [Call_batch_create 5, Call_calloc 0]\<rparr>"
    using create_leaves_add_ref_to_init [OF e o', THEN conjunct1]
    by (simp add: embedding_ops_def embedded_create_def calloc_batch_def log_event_def
        embedded_world_def)
  moreover have "usb_transfer_batch_init 10 1 (world_of_batch 1 zero_batch) =
       Returns ()
         \<lparr>endpoints = [1 \<mapsto> \<lparr>bus = 2, refcnt = 2\<rparr>],
          batches = [10 \<mapsto> zero_batch\<lparr>ep := 1\<rparr>],
          calloc_results = [], trace = [Call_add_ref 1]\<rparr>"
    using create_leaves_add_ref_to_init [OF e2 o2, THEN conjunct2, of 10]
    by (simp add: batch_at_def world_of_batch_def)
  ultimately show ?thesis using e o by simp
qed

subsection \<open>Reference balance\<close>

text \<open>One creation that returns a batch acquires one reference; so do \<open>n\<close>.\<close>

lemma create_acquires_one:
  assumes "endpoint_at st e = Some r" and "ops_at en (bus r) = Some ops"
    and "backend_contract ops"
    and "usb_transfer_batch_create en e st = Returns p st'" and "p \<noteq> 0"
  shows "endpoints st' = (endpoints st)(e \<mapsto> r\<lparr>refcnt := refcnt r + 1\<rparr>)"
proof (cases "batch_create ops")
  case None
  from assms(1) have e: "e \<noteq> 0" "endpoints st e = Some r"
    by (simp_all add: endpoint_at_Some)
  obtain q st1 where c: "calloc_batch st = (q, st1)"
    by (cases "calloc_batch st")
  then have e1: "endpoints st1 = endpoints st"
    by (auto simp: calloc_batch_def log_event_def split: list.splits if_splits)
  from assms(4) None assms(2) e c
  have "and_then (usb_transfer_batch_init q e st1) (\<lambda>u st3. Returns q st3) = Returns p st'"
    by (simp add: usb_transfer_batch_create_def endpoint_get_bus_def endpoint_at_def
        and_then_simps)
  then show ?thesis
    using e e1
    by (auto simp: usb_transfer_batch_init_def endpoint_add_ref_def endpoint_at_def
        and_then_simps log_event_def split: option.splits)
next
  case (Some f)
  from assms(1) have e: "e \<noteq> 0" "endpoints st e = Some r"
    by (simp_all add: endpoint_at_Some)
  from assms(3) Some have a: "acquires_one_reference f"
    by (simp add: backend_contract_def)
  from assms(4) Some assms(2) e
  have "f e (log_event (Call_batch_create e) st) = Returns p st'"
    by (simp add: usb_transfer_batch_create_def endpoint_get_bus_def endpoint_at_def
        and_then_simps)
  with a assms(5) obtain r' where
    "endpoint_at (log_event (Call_batch_create e) st) e = Some r'"
    "endpoints st' = (endpoints (log_event (Call_batch_create e) st))
                       (e \<mapsto> r'\<lparr>refcnt := refcnt r' + 1\<rparr>)"
    unfolding acquires_one_reference_def by blast
  with e show ?thesis
    by (simp add: endpoint_at_def log_event_def)
qed

lemma create_batches_acquire:
  assumes "ops_at en b = Some ops" and "backend_contract ops"
  shows "endpoint_at st e = Some r \<Longrightarrow> bus r = b \<Longrightarrow>
         create_batches en e n st = Returns ps st1 \<Longrightarrow> 0 \<notin> set ps \<Longrightarrow>
         length ps = n
         \<and> endpoints st1 = (endpoints st)(e \<mapsto> r\<lparr>refcnt := refcnt r + int n\<rparr>)"
proof (induction n arbitrary: st r ps)
  case 0
  then show ?case by (simp add: endpoint_at_Some map_upd_triv)
next
  case (Suc n)
  from Suc.prems(3) obtain p st' qs where
    c: "usb_transfer_batch_create en e st = Returns p st'"
    and rest: "create_batches en e n st' = Returns qs st1"
    and ps: "ps = p # qs"
    by (auto simp: and_then_def split: result.splits)
  from Suc.prems(4) ps have p: "p \<noteq> 0" and qs: "0 \<notin> set qs" by auto
  have e': "endpoints st' = (endpoints st)(e \<mapsto> r\<lparr>refcnt := refcnt r + 1\<rparr>)"
    using create_acquires_one [OF Suc.prems(1) _ assms(2) c p] assms(1) Suc.prems(2)
    by simp
  from Suc.prems(1) have "e \<noteq> 0" by (simp add: endpoint_at_Some)
  with e' have at': "endpoint_at st' e = Some (r\<lparr>refcnt := refcnt r + 1\<rparr>)"
    by (simp add: endpoint_at_def)
  have "length qs = n
         \<and> endpoints st1 = (endpoints st')(e \<mapsto> (r\<lparr>refcnt := refcnt r + 1\<rparr>)
              \<lparr>refcnt := refcnt (r\<lparr>refcnt := refcnt r + 1\<rparr>) + int n\<rparr>)"
    by (rule Suc.IH [OF at' _ rest qs]) (simp add: Suc.prems(2))
  then show ?case using ps e' by (simp add: add.assoc)
qed

text \<open>
  One completion releases one reference and leaves every other batch as it was; so
  do the completions of distinct batches, one after the other.
\<close>

lemma destroy_releases:
  assumes "batch_at st p = Some bt" and "ep bt = e" and "endpoint_at st e = Some r"
    and "ops_at en (bus r) = Some ops" and "backend_contract ops"
  shows "\<exists>st'. usb_transfer_batch_destroy en p st = Returns () st'
     \<and> endpoints st' = (endpoints st)(e \<mapsto> r\<lparr>refcnt := refcnt r - 1\<rparr>)
     \<and> (\<forall>q. q \<noteq> p \<longrightarrow> batches st' q = batches st q)"
proof -
  from assms(1-3) have f: "p \<noteq> 0" "batches st p = Some bt" "ep bt \<noteq> 0"
    "endpoints st (ep bt) = Some r"
    by (simp_all add: batch_at_Some endpoint_at_Some)
  show ?thesis
  proof (cases "batch_destroy ops")
    case None
    with f assms(2,4) show ?thesis
      by (simp add: usb_transfer_batch_destroy_def batch_at_def endpoint_at_def
          endpoint_get_bus_def endpoint_del_ref_def and_then_simps
          log_event_def free_batch_def Let_def)
  next
    case (Some g)
    define w where "w = st\<lparr>endpoints := (endpoints st)(e \<mapsto> r\<lparr>refcnt := refcnt r - 1\<rparr>),
        trace := trace st @ Call_del_ref e #
          (if refcnt r = 1 then [Call_endpoint_teardown e] else []) @
          [Log_debug2 p ''destroying'', Call_batch_destroy p]\<rparr>"
    have d: "usb_transfer_batch_destroy en p st = g p w"
      using f assms(2,4) Some
      by (simp add: usb_transfer_batch_destroy_def batch_at_def endpoint_at_def
          endpoint_get_bus_def endpoint_del_ref_def and_then_simps
          log_event_def Let_def w_def)
    from assms(5) Some have "releases_memory_only g"
      by (simp add: backend_contract_def)
    then obtain w' where "g p w = Returns () w'" "endpoints w' = endpoints w"
      "\<forall>q. q \<noteq> p \<longrightarrow> batches w' q = batches w q"
      unfolding releases_memory_only_def by blast
    with d show ?thesis by (simp add: w_def)
  qed
qed

lemma finish_releases:
  assumes "batch_at st p = Some bt" and "ep bt = e" and "endpoint_at st e = Some r"
    and "ops_at en (bus r) = Some ops" and "backend_contract ops"
    and "on_complete bt = 0 \<or> callbacks en (on_complete bt) \<noteq> None"
    and "callbacks_keep_stores en"
  shows "\<exists>st'. usb_transfer_batch_finish en p st = Returns () st'
     \<and> endpoints st' = (endpoints st)(e \<mapsto> r\<lparr>refcnt := refcnt r - 1\<rparr>)
     \<and> (\<forall>q. q \<noteq> p \<longrightarrow> batches st' q = batches st q)"
proof -
  from assms(1-3) have f: "p \<noteq> 0" "batches st p = Some bt" "ep bt \<noteq> 0"
    by (simp_all add: batch_at_Some endpoint_at_Some)
  have "\<exists>w. usb_transfer_batch_finish en p st = usb_transfer_batch_destroy en p w
          \<and> endpoints w = endpoints st \<and> batches w = batches st"
  proof (cases "on_complete bt = 0")
    case True
    with f have "usb_transfer_batch_finish en p st =
          usb_transfer_batch_destroy en p (log_event (Log_debug2 p ''finishing'') st)"
      by (simp add: usb_transfer_batch_finish_def batch_at_def)
    then show ?thesis by (auto simp: log_event_def intro!: exI)
  next
    case False
    with assms(6) obtain h where h: "callbacks en (on_complete bt) = Some h" by auto
    define w0 where "w0 = log_event (Call_on_complete (on_complete bt) (on_complete_data bt)
                         (error bt) (transfered_size bt))
              (log_event (Log_debug2 p ''finishing'') st)"
    from assms(7) h obtain s w1 where
      run: "h (on_complete_data bt) (error bt) (transfered_size bt) w0 = Returns s w1"
      and keep: "endpoints w1 = endpoints w0" "batches w1 = batches w0"
      unfolding callbacks_keep_stores_def by blast
    define w2 where "w2 = (if s \<noteq> EOK then log_event (Log_warning p s) w1 else w1)"
    have "usb_transfer_batch_finish en p st = usb_transfer_batch_destroy en p w2"
      using f False h run
      by (simp add: usb_transfer_batch_finish_def batch_at_def and_then_simps w0_def w2_def)
    moreover have "endpoints w2 = endpoints st" "batches w2 = batches st"
      using keep by (simp_all add: w2_def w0_def log_event_def)
    ultimately show ?thesis by blast
  qed
  then obtain w where w: "usb_transfer_batch_finish en p st = usb_transfer_batch_destroy en p w"
    "endpoints w = endpoints st" "batches w = batches st"
    by blast
  have "\<exists>st'. usb_transfer_batch_destroy en p w = Returns () st'
     \<and> endpoints st' = (endpoints w)(e \<mapsto> r\<lparr>refcnt := refcnt r - 1\<rparr>)
     \<and> (\<forall>q. q \<noteq> p \<longrightarrow> batches st' q = batches w q)"
    by (rule destroy_releases [OF _ assms(2) _ assms(4,5)])
       (use assms(1,3) w in \<open>simp_all add: batch_at_def endpoint_at_def split: if_splits\<close>)
  with w show ?thesis by simp
qed

lemma abort_releases:
  assumes "batch_at st p = Some bt" and "ep bt = e" and "endpoint_at st e = Some r"
    and "ops_at en (bus r) = Some ops" and "backend_contract ops"
    and "on_complete bt = 0 \<or> callbacks en (on_complete bt) \<noteq> None"
    and "callbacks_keep_stores en"
  shows "\<exists>st'. usb_transfer_batch_abort en p st = Returns () st'
     \<and> endpoints st' = (endpoints st)(e \<mapsto> r\<lparr>refcnt := refcnt r - 1\<rparr>)
     \<and> (\<forall>q. q \<noteq> p \<longrightarrow> batches st' q = batches st q)"
proof -
  from assms(1-3) have f: "p \<noteq> 0" "batches st p = Some bt" "ep bt \<noteq> 0"
    by (simp_all add: batch_at_Some endpoint_at_Some)
  define st0 where "st0 = st\<lparr>batches := (batches st)(p \<mapsto> bt\<lparr>error := EAGAIN\<rparr>)\<rparr>"
  have a: "usb_transfer_batch_abort en p st = usb_transfer_batch_finish en p st0"
    using f by (simp add: usb_transfer_batch_abort_def batch_at_def st0_def)
  have "\<exists>st'. usb_transfer_batch_finish en p st0 = Returns () st'
     \<and> endpoints st' = (endpoints st0)(e \<mapsto> r\<lparr>refcnt := refcnt r - 1\<rparr>)
     \<and> (\<forall>q. q \<noteq> p \<longrightarrow> batches st' q = batches st0 q)"
    by (rule finish_releases [where bt = "bt\<lparr>error := EAGAIN\<rparr>", OF _ _ _ assms(4,5) _ assms(7)])
       (use assms(2,3,6) f in \<open>simp_all add: st0_def batch_at_def endpoint_at_def\<close>)
  with a show ?thesis by (simp add: st0_def)
qed

lemma complete_batches_release:
  assumes "ops_at en b = Some ops" and "backend_contract ops"
    and "callbacks_keep_stores en"
  shows "endpoint_at st e = Some r \<Longrightarrow> bus r = b \<Longrightarrow> distinct (map snd cs) \<Longrightarrow>
         \<forall>p \<in> set (map snd cs). ready_to_complete en e st p \<Longrightarrow>
         \<exists>st2. complete_batches en cs st = Returns () st2
           \<and> endpoints st2 = (endpoints st)(e \<mapsto> r\<lparr>refcnt := refcnt r - int (length cs)\<rparr>)"
proof (induction cs arbitrary: st r)
  case Nil
  then show ?case by (simp add: endpoint_at_Some map_upd_triv)
next
  case (Cons cp cs)
  obtain c p where cp: "cp = (c, p)" by (cases cp)
  from Cons.prems(4) cp have "ready_to_complete en e st p" by simp
  then obtain bt where bt: "batch_at st p = Some bt" and ebt: "ep bt = e"
    and cb: "on_complete bt = 0 \<or> callbacks en (on_complete bt) \<noteq> None"
    by (auto simp: ready_to_complete_def split: option.splits)
  from assms(1) Cons.prems(2) have o: "ops_at en (bus r) = Some ops" by simp
  have "\<exists>st'. (case c of Finish \<Rightarrow> usb_transfer_batch_finish en p st
                        | Abort \<Rightarrow> usb_transfer_batch_abort en p st) = Returns () st'
     \<and> endpoints st' = (endpoints st)(e \<mapsto> r\<lparr>refcnt := refcnt r - 1\<rparr>)
     \<and> (\<forall>q. q \<noteq> p \<longrightarrow> batches st' q = batches st q)"
    using finish_releases [OF bt ebt Cons.prems(1) o assms(2) cb assms(3)]
      abort_releases [OF bt ebt Cons.prems(1) o assms(2) cb assms(3)]
    by (cases c) simp_all
  then obtain st' where
    s1: "(case c of Finish \<Rightarrow> usb_transfer_batch_finish en p st
                  | Abort \<Rightarrow> usb_transfer_batch_abort en p st) = Returns () st'"
    and s2: "endpoints st' = (endpoints st)(e \<mapsto> r\<lparr>refcnt := refcnt r - 1\<rparr>)"
    and s3: "\<forall>q. q \<noteq> p \<longrightarrow> batches st' q = batches st q"
    by blast
  from Cons.prems(3) cp have pn: "p \<notin> set (map snd cs)" and dist: "distinct (map snd cs)"
    by auto
  from Cons.prems(1) have e0: "e \<noteq> 0" by (simp add: endpoint_at_Some)
  with s2 have at': "endpoint_at st' e = Some (r\<lparr>refcnt := refcnt r - 1\<rparr>)"
    by (simp add: endpoint_at_def)
  have ready: "\<forall>q \<in> set (map snd cs). ready_to_complete en e st' q"
  proof
    fix q assume q: "q \<in> set (map snd cs)"
    with pn have "q \<noteq> p" by auto
    with s3 have "batch_at st' q = batch_at st q" by (simp add: batch_at_def)
    moreover from q Cons.prems(4) have "ready_to_complete en e st q" by auto
    ultimately show "ready_to_complete en e st' q"
      by (simp add: ready_to_complete_def)
  qed
  have "\<exists>st2. complete_batches en cs st' = Returns () st2
           \<and> endpoints st2 = (endpoints st')(e \<mapsto> (r\<lparr>refcnt := refcnt r - 1\<rparr>)
                  \<lparr>refcnt := refcnt (r\<lparr>refcnt := refcnt r - 1\<rparr>) - int (length cs)\<rparr>)"
    by (rule Cons.IH [OF at' _ dist ready]) (simp add: Cons.prems(2))
  then obtain st2 where
    t1: "complete_batches en cs st' = Returns () st2"
    and t2: "endpoints st2 = (endpoints st)(e \<mapsto> r\<lparr>refcnt := refcnt r - 1 - int (length cs)\<rparr>)"
    by (auto simp: s2)
  have "complete_batches en (cp # cs) st = Returns () st2"
    using s1 t1 by (simp add: cp and_then_simps)
  moreover have "endpoints st2 = (endpoints st)(e \<mapsto>
                    r\<lparr>refcnt := refcnt r - int (length (cp # cs))\<rparr>)"
    using t2 by (simp add: algebra_simps)
  ultimately show ?case by blast
qed

text \<open>The sample configuration keeps the contracts.\<close>

lemma sample_callbacks_keep_stores: "callbacks_keep_stores sample_env"
  by (auto simp: callbacks_keep_stores_def sample_env_def recording_callback_def
      split: if_splits)

lemma generic_ops_contract: "backend_contract generic_ops"
  by (simp add: backend_contract_def generic_ops_def)

lemma embedded_create_acquires: "acquires_one_reference embedded_create"
  unfolding acquires_one_reference_def
proof (intro allI impI)
  fix e w p w'
  assume a: "embedded_create e w = Returns p w' \<and> p \<noteq> 0"
  obtain q w1 where c: "calloc_batch w = (q, w1)"
    by (cases "calloc_batch w")
  then have e1: "endpoints w1 = endpoints w"
    by (auto simp: calloc_batch_def log_event_def split: list.splits if_splits)
  from a c have "q \<noteq> 0"
    and i: "and_then (usb_transfer_batch_init q e w1) (\<lambda>u w2. Returns q w2) = Returns p w'"
    by (auto simp: embedded_create_def split: if_splits)
  from i e1 show "\<exists>r. endpoint_at w e = Some r
           \<and> endpoints w' = (endpoints w)(e \<mapsto> r\<lparr>refcnt := refcnt r + 1\<rparr>)"
    by (auto simp: usb_transfer_batch_init_def endpoint_add_ref_def endpoint_at_def
        and_then_def log_event_def split: option.splits if_splits result.splits)
qed

lemma embedded_destroy_releases: "releases_memory_only embedded_destroy"
  by (simp add: releases_memory_only_def embedded_destroy_def free_batch_def log_event_def)

lemma embedding_ops_contract: "backend_contract embedding_ops"
  by (simp add: backend_contract_def embedding_ops_def embedded_create_acquires
      embedded_destroy_releases)

text \<open>
  Claim C2. On every endpoint, whatever its bus (no override, or overrides that keep
  their contract), after \<open>n\<close> creations that returned \<open>n\<close> distinct batches the
  reference count is \<open>n\<close> higher; and once these batches, filled in by the driver and
  the backend, have each been completed by finish or by abort, in any order, the endpoint
  record is the one before the first creation: the count is back.
\<close>

theorem reference_balance:
  assumes "endpoint_at st e = Some r" and "ops_at en (bus r) = Some ops"
    and "backend_contract ops" and "callbacks_keep_stores en"
    and "create_batches en e n st = Returns ps st1" and "0 \<notin> set ps" and "distinct ps"
  shows "length ps = n
     \<and> endpoints st1 e = Some (r\<lparr>refcnt := refcnt r + int n\<rparr>)
     \<and> (\<forall>st1' cs.
           endpoints st1' e = endpoints st1 e
           \<and> list_all (ready_to_complete en e st1') ps
           \<and> distinct (map snd cs) \<and> set (map snd cs) = set ps
           \<longrightarrow> (\<exists>st2. complete_batches en cs st1' = Returns () st2
                  \<and> endpoints st2 e = Some r))"
proof -
  from create_batches_acquire [OF assms(2,3,1) refl assms(5,6)]
  have len: "length ps = n"
    and e1: "endpoints st1 e = Some (r\<lparr>refcnt := refcnt r + int n\<rparr>)"
    by simp_all
  from assms(1) have e0: "e \<noteq> 0" by (simp add: endpoint_at_Some)
  have later: "\<exists>st2. complete_batches en cs st1' = Returns () st2 \<and> endpoints st2 e = Some r"
    if h: "endpoints st1' e = endpoints st1 e"
      "list_all (ready_to_complete en e st1') ps"
      "distinct (map snd cs)" "set (map snd cs) = set ps"
    for st1' cs
  proof -
    have "length (map snd cs) = length ps"
      using h(3,4) assms(7) distinct_card [of "map snd cs"] distinct_card [of ps]
      by simp
    then have lcs: "length cs = n" using len by simp
    have at': "endpoint_at st1' e = Some (r\<lparr>refcnt := refcnt r + int n\<rparr>)"
      using h(1) e1 e0 by (simp add: endpoint_at_def)
    have rd: "\<forall>p \<in> set (map snd cs). ready_to_complete en e st1' p"
      using h(2,4) by (simp add: list_all_iff)
    have "\<exists>st2. complete_batches en cs st1' = Returns () st2
           \<and> endpoints st2 = (endpoints st1')(e \<mapsto> (r\<lparr>refcnt := refcnt r + int n\<rparr>)
                \<lparr>refcnt := refcnt (r\<lparr>refcnt := refcnt r + int n\<rparr>) - int (length cs)\<rparr>)"
      by (rule complete_batches_release [OF assms(2,3,4) at' _ h(3) rd]) simp
    then show ?thesis using lcs by auto
  qed
  from len e1 later show ?thesis by blast
qed

text \<open>
  Three batches on the bus without overrides, the count going 1, 4, 1 (the second batch
  completed with a callback); two batches on the embedding bus, the count going 1, 3, 1.
\<close>

theorem reference_balance_witness:
  "(\<exists>st1 st2.
      create_batches sample_env 1 3 fresh_world = Returns [10, 11, 12] st1
      \<and> endpoints st1 1 = Some \<lparr>bus = 2, refcnt = 4\<rparr>
      \<and> complete_batches sample_env [(Finish, 11), (Abort, 10), (Finish, 12)]
           (st1\<lparr>batches := (batches st1)(11 \<mapsto> done_batch)\<rparr>) = Returns () st2
      \<and> endpoints st2 1 = Some \<lparr>bus = 2, refcnt = 1\<rparr>)
   \<and> (\<exists>st1 st2.
      create_batches sample_env 5 2 embedded_world = Returns [20, 21] st1
      \<and> endpoints st1 5 = Some \<lparr>bus = 3, refcnt = 3\<rparr>
      \<and> complete_batches sample_env [(Abort, 21), (Finish, 20)] st1 = Returns () st2
      \<and> endpoints st2 5 = Some \<lparr>bus = 3, refcnt = 1\<rparr>)"
proof -
  have k: "callbacks_keep_stores sample_env"
    by (rule sample_callbacks_keep_stores)
  have e: "endpoint_at fresh_world 1 = Some \<lparr>bus = 2, refcnt = 1\<rparr>"
    by (simp add: endpoint_at_def fresh_world_def)
  have o: "ops_at sample_env (bus \<lparr>bus = 2, refcnt = 1\<rparr>) = Some generic_ops"
    by (simp add: ops_at_def sample_env_def)
  have "\<exists>st1. create_batches sample_env 1 3 fresh_world = Returns [10, 11, 12] st1
          \<and> batches st1 = [10 \<mapsto> zero_batch\<lparr>ep := 1\<rparr>, 11 \<mapsto> zero_batch\<lparr>ep := 1\<rparr>,
                           12 \<mapsto> zero_batch\<lparr>ep := 1\<rparr>]"
    by (simp add: numeral_3_eq_3 usb_transfer_batch_create_def usb_transfer_batch_init_def
        fresh_world_def sample_env_def generic_ops_def calloc_batch_def
        endpoint_get_bus_def endpoint_add_ref_def endpoint_at_def batch_at_def ops_at_def
        and_then_simps log_event_def)
  then obtain st1 where
    c: "create_batches sample_env 1 3 fresh_world = Returns [10, 11, 12] st1"
    and b: "batches st1 = [10 \<mapsto> zero_batch\<lparr>ep := 1\<rparr>, 11 \<mapsto> zero_batch\<lparr>ep := 1\<rparr>,
                           12 \<mapsto> zero_batch\<lparr>ep := 1\<rparr>]"
    by blast
  note bal = reference_balance [OF e o generic_ops_contract k c]
  have e1: "endpoints st1 1 = Some \<lparr>bus = 2, refcnt = 4\<rparr>"
    using bal by simp
  have "\<exists>st2. complete_batches sample_env [(Finish, 11), (Abort, 10), (Finish, 12)]
                 (st1\<lparr>batches := (batches st1)(11 \<mapsto> done_batch)\<rparr>) = Returns () st2
              \<and> endpoints st2 1 = Some \<lparr>bus = 2, refcnt = 1\<rparr>"
    using bal [THEN conjunct2, THEN conjunct2, rule_format,
        of "st1\<lparr>batches := (batches st1)(11 \<mapsto> done_batch)\<rparr>"
           "[(Finish, 11), (Abort, 10), (Finish, 12)]"]
    by (auto simp: b ready_to_complete_def batch_at_def zero_batch_def done_batch_def
        sample_env_def)
  with c e1 have first: "\<exists>st1 st2.
      create_batches sample_env 1 3 fresh_world = Returns [10, 11, 12] st1
      \<and> endpoints st1 1 = Some \<lparr>bus = 2, refcnt = 4\<rparr>
      \<and> complete_batches sample_env [(Finish, 11), (Abort, 10), (Finish, 12)]
           (st1\<lparr>batches := (batches st1)(11 \<mapsto> done_batch)\<rparr>) = Returns () st2
      \<and> endpoints st2 1 = Some \<lparr>bus = 2, refcnt = 1\<rparr>"
    by blast
  have e': "endpoint_at embedded_world 5 = Some \<lparr>bus = 3, refcnt = 1\<rparr>"
    by (simp add: endpoint_at_def embedded_world_def)
  have o': "ops_at sample_env (bus \<lparr>bus = 3, refcnt = 1\<rparr>) = Some embedding_ops"
    by (simp add: ops_at_def sample_env_def)
  have "\<exists>st1. create_batches sample_env 5 2 embedded_world = Returns [20, 21] st1
          \<and> batches st1 = [20 \<mapsto> zero_batch\<lparr>ep := 5\<rparr>, 21 \<mapsto> zero_batch\<lparr>ep := 5\<rparr>]"
    by (simp add: numeral_2_eq_2 usb_transfer_batch_create_def usb_transfer_batch_init_def
        embedded_world_def sample_env_def embedding_ops_def embedded_create_def
        calloc_batch_def endpoint_get_bus_def endpoint_add_ref_def endpoint_at_def
        batch_at_def ops_at_def and_then_simps log_event_def)
  then obtain st1' where
    c': "create_batches sample_env 5 2 embedded_world = Returns [20, 21] st1'"
    and b': "batches st1' = [20 \<mapsto> zero_batch\<lparr>ep := 5\<rparr>, 21 \<mapsto> zero_batch\<lparr>ep := 5\<rparr>]"
    by blast
  note bal' = reference_balance [OF e' o' embedding_ops_contract k c']
  have e1': "endpoints st1' 5 = Some \<lparr>bus = 3, refcnt = 3\<rparr>"
    using bal' by simp
  have "\<exists>st2. complete_batches sample_env [(Abort, 21), (Finish, 20)] st1' = Returns () st2
              \<and> endpoints st2 5 = Some \<lparr>bus = 3, refcnt = 1\<rparr>"
    using bal' [THEN conjunct2, THEN conjunct2, rule_format,
        of st1' "[(Abort, 21), (Finish, 20)]"]
    by (auto simp: b' ready_to_complete_def batch_at_def zero_batch_def)
  with c' e1' have second: "\<exists>st1 st2.
      create_batches sample_env 5 2 embedded_world = Returns [20, 21] st1
      \<and> endpoints st1 5 = Some \<lparr>bus = 3, refcnt = 3\<rparr>
      \<and> complete_batches sample_env [(Abort, 21), (Finish, 20)] st1 = Returns () st2
      \<and> endpoints st2 5 = Some \<lparr>bus = 3, refcnt = 1\<rparr>"
    by blast
  from first second show ?thesis by blast
qed

end
